theory Spec2Isabelle
  imports
    Main
    "HOL-Library.Char_ord"
    "HOL-Library.List_Lexorder"
    "HOL-Library.Multiset"
    "HOL-Library.AList"
begin

section \<open>The woodbox request authenticator\<close>

text \<open>
  A shallow embedding of \<^verbatim>\<open>authenticator.py\<close>: the comparison fallback
  \<^verbatim>\<open>compare_digest\<close>, and the methods \<^verbatim>\<open>parse_authorization_header\<close>,
  \<^verbatim>\<open>verify\<close> and \<^verbatim>\<open>authenticate\<close> of \<^verbatim>\<open>HMACAuthenticator\<close>.

  Conventions of the embedding.
  \<^item> The module runs on Python 2 (\<^verbatim>\<open>urllib.quote\<close>, \<^verbatim>\<open>iterkeys\<close>). The text that
    Flask hands over (header names and values, the path, the query arguments) is
    \<^verbatim>\<open>unicode\<close>; it is modelled as a \<open>string\<close> whose characters are the code points
    0 to 255, which is what a header decoded as Latin-1 contains. The request method is a
    byte string. \<open>is_ascii\<close> marks the characters below 128.
  \<^item> A Python \<^verbatim>\<open>dict\<close> is an association list read with \<open>map_of\<close> and written
    with \<open>AList.update\<close>; its key set is \<open>set (map fst d)\<close>.
  \<^item> A raised exception is the left injection of a sum.
  \<^item> The ambient Flask object \<^verbatim>\<open>g\<close> is a record passed in and returned.
  \<^item> What the module imports from elsewhere (the timestamp parser, the clock, SHA-256,
    HMAC, the session table) is collected in the record \<open>env\<close> and passed explicitly.
\<close>

subsection \<open>Python string operations\<close>

definition is_ascii :: "char \<Rightarrow> bool" where
  "is_ascii c \<longleftrightarrow> c < CHR 0x80"

text \<open>
  White space as \<^verbatim>\<open>unicode.strip()\<close> sees it among the code points below 256, and as
  \<^verbatim>\<open>str.strip()\<close> sees it in a byte string.
\<close>

definition is_space :: "char \<Rightarrow> bool" where
  "is_space c \<longleftrightarrow>
     c \<in> set [CHR 0x09, CHR 0x0A, CHR 0x0B, CHR 0x0C, CHR 0x0D,
              CHR 0x1C, CHR 0x1D, CHR 0x1E, CHR 0x1F, CHR 0x20, CHR 0x85, CHR 0xA0]"

definition is_space_str :: "char \<Rightarrow> bool" where
  "is_space_str c \<longleftrightarrow> c \<in> set [CHR 0x09, CHR 0x0A, CHR 0x0B, CHR 0x0C, CHR 0x0D, CHR 0x20]"

definition strip_with :: "(char \<Rightarrow> bool) \<Rightarrow> string \<Rightarrow> string" where
  "strip_with sp s = rev (dropWhile sp (rev (dropWhile sp s)))"

definition strip :: "string \<Rightarrow> string" where
  "strip s = strip_with is_space s"

definition strip_str :: "string \<Rightarrow> string" where
  "strip_str s = strip_with is_space_str s"

text \<open>
  \<^verbatim>\<open>unicode.lower()\<close> on the code points below 256: the letters A to Z, and the
  letters 0xC0 to 0xDE other than the multiplication sign 0xD7, move up by 32.
\<close>

definition is_upper :: "char \<Rightarrow> bool" where
  "is_upper c \<longleftrightarrow>
     (CHR ''A'' \<le> c \<and> c \<le> CHR ''Z'') \<or> (CHR 0xC0 \<le> c \<and> c \<le> CHR 0xDE \<and> c \<noteq> CHR 0xD7)"

definition lower_char :: "char \<Rightarrow> char" where
  "lower_char c = (if is_upper c then char_of (of_char c + (32::nat)) else c)"

definition lower :: "string \<Rightarrow> string" where
  "lower s = map lower_char s"

text \<open>\<^verbatim>\<open>str.upper()\<close> on a byte string: the letters a to z move down by 32.\<close>

definition is_lower_str :: "char \<Rightarrow> bool" where
  "is_lower_str c \<longleftrightarrow> CHR ''a'' \<le> c \<and> c \<le> CHR ''z''"

definition upper_char :: "char \<Rightarrow> char" where
  "upper_char c = (if is_lower_str c then char_of (of_char c - (32::nat)) else c)"

definition upper :: "string \<Rightarrow> string" where
  "upper s = map upper_char s"

text \<open>\<^verbatim>\<open>s.split(c)\<close> for a one-character separator: never the empty list.\<close>

fun split_on :: "char \<Rightarrow> string \<Rightarrow> string list" where
  "split_on c [] = [[]]"
| "split_on c (x # xs) =
     (if x = c then [] # split_on c xs
      else (let r = split_on c xs in (x # hd r) # tl r))"

text \<open>\<^verbatim>\<open>s.partition(c)\<close>: the part before the first \<open>c\<close>, the separator found (empty
  when there is none) and the part after it.\<close>

definition partition_str :: "char \<Rightarrow> string \<Rightarrow> string \<times> string \<times> string" where
  "partition_str c s =
     (takeWhile (\<lambda>x. x \<noteq> c) s,
      (if c \<in> set s then [c] else []),
      drop 1 (dropWhile (\<lambda>x. x \<noteq> c) s))"

text \<open>\<^verbatim>\<open>sep.join(xs)\<close>.\<close>

fun join :: "string \<Rightarrow> string list \<Rightarrow> string" where
  "join sep [] = []"
| "join sep [x] = x"
| "join sep (x # y # ys) = x @ sep @ join sep (y # ys)"

subsection \<open>Exceptions\<close>

type_synonym dict = "(string \<times> string) list"

datatype exception =
  KeyError string | ValueError string | UnicodeDecodeError | UnicodeEncodeError

text \<open>A sequence of computations stops at the first one that raises.\<close>

fun collect :: "(exception + 'a) list \<Rightarrow> exception + 'a list" where
  "collect [] = Inr []"
| "collect (x # xs) =
     (case x of
        Inl e \<Rightarrow> Inl e
      | Inr y \<Rightarrow> (case collect xs of Inl e \<Rightarrow> Inl e | Inr ys \<Rightarrow> Inr (y # ys)))"

subsection \<open>Percent-encoding: \<^verbatim>\<open>urllib.quote\<close> of Python 2\<close>

text \<open>
  \<^verbatim>\<open>urllib.quote(s, safe)\<close> looks every character of \<open>s\<close> up in a table whose keys are
  the 256 one-byte strings: a character in \<^verbatim>\<open>always_safe\<close> (the letters, the digits and
  \<^verbatim>\<open>_.-\<close>) or in \<^verbatim>\<open>safe\<close> (by default \<^verbatim>\<open>'/'\<close>) maps to itself, any other to
  \<^verbatim>\<open>'%{:02X}'.format(ord(c))\<close>. A non-ASCII character of a \<^verbatim>\<open>unicode\<close> argument
  equals no key of the table, and the lookup raises \<^verbatim>\<open>KeyError\<close>.
\<close>

definition always_safe :: string where
  "always_safe = ''ABCDEFGHIJKLMNOPQRSTUVWXYZabcdefghijklmnopqrstuvwxyz0123456789_.-''"

definition hex_digit :: "nat \<Rightarrow> char" where
  "hex_digit n = ''0123456789ABCDEF'' ! (n mod 16)"

definition percent :: "char \<Rightarrow> string" where
  "percent c = [CHR ''%'', hex_digit (of_char c div 16), hex_digit (of_char c mod 16)]"

definition quoter :: "string \<Rightarrow> char \<Rightarrow> exception + string" where
  "quoter safe c =
     (if c \<in> set always_safe \<or> c \<in> set safe then Inr [c]
      else if is_ascii c then Inr (percent c)
      else Inl (KeyError [c]))"

definition quote :: "string \<Rightarrow> string \<Rightarrow> exception + string" where
  "quote s safe =
     (case collect (map (quoter safe) s) of Inl e \<Rightarrow> Inl e | Inr qs \<Rightarrow> Inr (concat qs))"

subsection \<open>The fallback \<^verbatim>\<open>compare_digest\<close>\<close>

text \<open>
  \<^verbatim>\<open>
  def compare_digest(a, b):
      l = min(len(a), len(b))
      result = True
      for i in range(0, l):
          result = result and (a[i] == b[i]);
      if len(a) != len(b):
          result = False
      return result
  \<close>
  The loop is a recursion over the indices \<open>[0..<l]\<close>, all of them below both lengths.
\<close>

fun compare_loop :: "string \<Rightarrow> string \<Rightarrow> nat list \<Rightarrow> bool \<Rightarrow> bool" where
  "compare_loop a b [] result = result"
| "compare_loop a b (i # is) result = compare_loop a b is (result \<and> a ! i = b ! i)"

definition compare_digest :: "string \<Rightarrow> string \<Rightarrow> bool" where
  "compare_digest a b =
     (let l = min (length a) (length b);
          result = compare_loop a b [0..<l] True
      in if length a \<noteq> length b then False else result)"

text \<open>
  The same loop with its evaluation made explicit. Python's \<^verbatim>\<open>x and y\<close> evaluates
  \<open>y\<close> only when \<open>x\<close> is true, so \<^verbatim>\<open>a[i] == b[i]\<close> is evaluated at index \<open>i\<close> only
  while \<open>result\<close> is still true. The second component of the state records the indices
  at which the characters were compared, in order.
\<close>

fun compare_loop_trace ::
  "string \<Rightarrow> string \<Rightarrow> nat list \<Rightarrow> bool \<times> nat list \<Rightarrow> bool \<times> nat list" where
  "compare_loop_trace a b [] st = st"
| "compare_loop_trace a b (i # is) (result, compared) =
     (if result then compare_loop_trace a b is (a ! i = b ! i, compared @ [i])
      else compare_loop_trace a b is (False, compared))"

definition compare_digest_trace :: "string \<Rightarrow> string \<Rightarrow> bool \<times> nat list" where
  "compare_digest_trace a b =
     (let l = min (length a) (length b);
          (result, compared) = compare_loop_trace a b [0..<l] (True, [])
      in if length a \<noteq> length b then (False, compared) else (result, compared))"

subsection \<open>Data\<close>

text \<open>The attributes of Flask's \<^verbatim>\<open>g\<close> that the module writes.\<close>

record g_ctx =
  user :: "nat option"
  user_reason :: string

text \<open>A row of \<^verbatim>\<open>SessionModel\<close>: the attributes the module reads.\<close>

record session =
  secret :: string
  user_id :: "nat option"

text \<open>
  Flask's \<^verbatim>\<open>request\<close>, as the WSGI server fills it: \<open>environ_method\<close> is the
  \<^verbatim>\<open>REQUEST_METHOD\<close> of the environment, \<open>req_args\<close> the query multi-dictionary as the
  list of its (key, value) pairs, \<open>req_headers\<close> the header list, one entry for each
  header name.
\<close>

record request =
  environ_method :: string
  req_path :: string
  req_args :: "(string \<times> string) list"
  req_data :: string
  req_headers :: "(string \<times> string) list"

text \<open>
  The attribute \<^verbatim>\<open>request.method\<close> that line 123 reads is a property of werkzeug's
  request class, which loads \<^verbatim>\<open>REQUEST_METHOD\<close> through \<^verbatim>\<open>lambda x: x.upper()\<close>:
  whatever the client sent, the module sees the method in upper case.
\<close>

definition request_method :: "request \<Rightarrow> string" where
  "request_method rq = upper (environ_method rq)"

text \<open>
  What the module imports and does not define: \<^verbatim>\<open>strptime_iso8601\<close> (which returns a
  time, here in microseconds since the epoch, or raises), the clock read by
  \<^verbatim>\<open>datetime.utcnow\<close>, the hex digests of \<^verbatim>\<open>sha256\<close> and \<^verbatim>\<open>hmac_new\<close>, and
  the query \<^verbatim>\<open>SessionModel.query.filter_by(session_id=...).first()\<close>.
\<close>

record env =
  strptime_iso8601 :: "string \<Rightarrow> exception + int"
  utcnow :: int
  sha256_hexdigest :: "string \<Rightarrow> string"
  hmac_hexdigest :: "string \<Rightarrow> string \<Rightarrow> string"
  session_first :: "string \<Rightarrow> session option"

subsection \<open>\<^verbatim>\<open>parse_authorization_header\<close>\<close>

definition parse_arg :: "dict \<Rightarrow> string \<Rightarrow> dict" where
  "parse_arg args_dict arg =
     (case partition_str CHR ''='' arg of
        (name, _, val) \<Rightarrow> AList.update (lower (strip name)) (strip val) args_dict)"

definition parse_authorization_header :: "string \<Rightarrow> string \<times> dict" where
  "parse_authorization_header header =
     (case partition_str CHR '' '' header of
        (method, _, args) \<Rightarrow>
          (strip method, foldl parse_arg [] (split_on CHR '','' args)))"

subsection \<open>The pieces of \<^verbatim>\<open>verify\<close>\<close>

text \<open>Line 69: \<^verbatim>\<open>sorted(auth['signedheaders'].lower().split(';'))\<close>.\<close>

definition signed_headers_of :: "string \<Rightarrow> string list" where
  "signed_headers_of v = sort (split_on CHR '';'' (lower v))"

text \<open>Lines 77 to 82: the set of required headers, grown by a loop over the header names.\<close>

definition add_required :: "string \<Rightarrow> string set \<Rightarrow> string set" where
  "add_required h req =
     (if take 10 h = ''x-woodbox-'' then insert h req
      else if h = ''content-type'' then insert h req
      else req)"

definition required_headers :: "dict \<Rightarrow> string set" where
  "required_headers headers =
     fold add_required (map fst headers)
       {''host'', ''x-woodbox-content-sha256'', ''x-woodbox-timestamp''}"

text \<open>
  A Python set has no specified iteration order; where the source joins a set into a
  message, the model lists its elements in increasing order.
\<close>

definition join_set :: "string set \<Rightarrow> string" where
  "join_set S = join '', '' (sorted_list_of_set S)"

text \<open>
  Lines 126 to 133: the canonical query string. Each pair is built as
  \<^verbatim>\<open>quote(key, '') + '=' + quote(v, '')\<close>, the keys in sorted order and the values of a
  key in sorted order; the first \<^verbatim>\<open>quote\<close> that raises ends the loop.
\<close>

definition iterkeys :: "(string \<times> string) list \<Rightarrow> string list" where
  "iterkeys args = remdups (map fst args)"

definition getlist :: "(string \<times> string) list \<Rightarrow> string \<Rightarrow> string list" where
  "getlist args key = map snd (filter (\<lambda>p. fst p = key) args)"

definition query_pair :: "string \<Rightarrow> string \<Rightarrow> exception + string" where
  "query_pair key v =
     (case quote key [] of
        Inl e \<Rightarrow> Inl e
      | Inr k \<Rightarrow> (case quote v [] of Inl e \<Rightarrow> Inl e | Inr w \<Rightarrow> Inr (k @ ''='' @ w)))"

definition canonical_query_string :: "(string \<times> string) list \<Rightarrow> exception + string" where
  "canonical_query_string args =
     (case collect (concat (map (\<lambda>key. map (query_pair key) (sort (getlist args key)))
                                (sort (iterkeys args)))) of
        Inl e \<Rightarrow> Inl e
      | Inr pairs \<Rightarrow> Inr (join ''&'' pairs))"

text \<open>Line 124: \<^verbatim>\<open>urllib.quote(request.path.strip())\<close>.\<close>

definition canonical_uri :: "string \<Rightarrow> exception + string" where
  "canonical_uri path = quote (strip path) ''/''"

text \<open>Lines 136 to 138: one line for each entry of the signed-header list; the
  subscript \<^verbatim>\<open>headers[h]\<close> raises \<^verbatim>\<open>KeyError\<close> on a name that is not a key.\<close>

fun header_lines :: "string list \<Rightarrow> dict \<Rightarrow> exception + string list" where
  "header_lines [] headers = Inr []"
| "header_lines (h # hs) headers =
     (case map_of headers h of
        None \<Rightarrow> Inl (KeyError h)
      | Some v \<Rightarrow>
          (case header_lines hs headers of
             Inl e \<Rightarrow> Inl e
           | Inr ls \<Rightarrow> Inr ((h @ '':'' @ v) # ls)))"

text \<open>
  Lines 123 to 144: the canonical request. The header block is encoded to a byte string
  (line 139) and then joined with the signed names, which are \<^verbatim>\<open>unicode\<close>: Python 2
  decodes the byte strings of such a join as ASCII, so a non-ASCII character in the
  method or in the header block raises \<^verbatim>\<open>UnicodeDecodeError\<close> at line 142.
\<close>

definition canonical_request ::
  "request \<Rightarrow> string list \<Rightarrow> dict \<Rightarrow> string \<Rightarrow> exception + string" where
  "canonical_request rq signed_headers headers payload_hash =
     (let method = strip_str (request_method rq)
      in case canonical_uri (req_path rq) of
           Inl e \<Rightarrow> Inl e
         | Inr uri \<Rightarrow>
             (case canonical_query_string (req_args rq) of
                Inl e \<Rightarrow> Inl e
              | Inr query \<Rightarrow>
                  (case header_lines signed_headers headers of
                     Inl e \<Rightarrow> Inl e
                   | Inr ls \<Rightarrow>
                       (let block = join [CHR 0x0A] ls
                        in if list_all is_ascii method \<and> list_all is_ascii block
                           then Inr (join [CHR 0x0A]
                                       [method, uri, query, block,
                                        join '';'' signed_headers, payload_hash])
                           else Inl UnicodeDecodeError))))"

subsection \<open>\<^verbatim>\<open>verify\<close>\<close>

definition reject :: "g_ctx \<Rightarrow> string \<Rightarrow> (exception + bool) \<times> g_ctx" where
  "reject g why = (Inr False, g\<lparr>user := None, user_reason := why\<rparr>)"

definition raise :: "g_ctx \<Rightarrow> exception \<Rightarrow> (exception + bool) \<times> g_ctx" where
  "raise g e = (Inl e, g)"

text \<open>
  Lines 146 to 160, once the session is loaded. The string to sign is \<^verbatim>\<open>unicode\<close>, and
  \<^verbatim>\<open>hmac_new\<close> encodes it as ASCII: a non-ASCII character of the timestamp raises
  \<^verbatim>\<open>UnicodeEncodeError\<close> at line 150 (the two other lines of the string are ASCII as
  they come). The comparison is the \<^verbatim>\<open>compare_digest\<close> that the module defines.
\<close>

definition check_signature ::
  "env \<Rightarrow> request \<Rightarrow> string list \<Rightarrow> dict \<Rightarrow> string \<Rightarrow> string \<Rightarrow> session \<Rightarrow> g_ctx
     \<Rightarrow> (exception + bool) \<times> g_ctx" where
  "check_signature ev rq signed_headers headers payload_hash signature sess g =
     (case canonical_request rq signed_headers headers payload_hash of
        Inl e \<Rightarrow> raise g e
      | Inr creq \<Rightarrow>
          (case map_of headers ''x-woodbox-timestamp'' of
             None \<Rightarrow> raise g (KeyError ''x-woodbox-timestamp'')
           | Some timestamp \<Rightarrow>
               (let string_to_sign =
                      join [CHR 0x0A]
                        [''WOODBOX-HMAC-SHA256'', timestamp, sha256_hexdigest ev creq];
                    signing_key = secret sess
                in if \<not> list_all is_ascii timestamp then raise g UnicodeEncodeError
                   else
                     (let computed_signature = hmac_hexdigest ev signing_key string_to_sign
                      in if compare_digest signature computed_signature
                         then (Inr True,
                               g\<lparr>user := user_id sess, user_reason := ''Authenticated''\<rparr>)
                         else reject g ''Signature do not match''))))"

text \<open>Lines 91 to 121: the gates between header coverage and the signature.\<close>

definition check_request ::
  "env \<Rightarrow> request \<Rightarrow> string \<Rightarrow> string list \<Rightarrow> string \<Rightarrow> dict \<Rightarrow> g_ctx
     \<Rightarrow> (exception + bool) \<times> g_ctx" where
  "check_request ev rq credential signed_headers signature headers g =
     (let missing_headers = set signed_headers - set (map fst headers)
      in if card missing_headers > 0
         then reject g (''Missing headers: '' @ join_set missing_headers)
         else
           (case map_of headers ''x-woodbox-timestamp'' of
              None \<Rightarrow> raise g (KeyError ''x-woodbox-timestamp'')
            | Some ts \<Rightarrow>
                (case strptime_iso8601 ev ts of
                   Inl e \<Rightarrow> raise g e
                 | Inr request_time \<Rightarrow>
                     (let now = utcnow ev;
                          max_age = 5 * 60 * 1000000
                      in if \<bar>request_time - now\<bar> > max_age
                         then reject g ''Request is too old.''
                         else
                           (let payload_hash = sha256_hexdigest ev (req_data rq)
                            in case map_of headers ''x-woodbox-content-sha256'' of
                                 None \<Rightarrow> raise g (KeyError ''x-woodbox-content-sha256'')
                               | Some claimed \<Rightarrow>
                                   if payload_hash \<noteq> claimed
                                   then reject g ''Content hash does not match.''
                                   else
                                     (case session_first ev credential of
                                        None \<Rightarrow> reject g ''Invalid credential.''
                                      | Some sess \<Rightarrow>
                                          check_signature ev rq signed_headers headers
                                            payload_hash signature sess g))))))"

text \<open>Lines 59 to 89, and then the rest. Line 85 compares the two sets with
  \<^verbatim>\<open>required_headers > set(signed_headers)\<close>, Python's proper-superset test.\<close>

definition verify ::
  "env \<Rightarrow> request \<Rightarrow> string \<Rightarrow> dict \<Rightarrow> dict \<Rightarrow> g_ctx \<Rightarrow> (exception + bool) \<times> g_ctx" where
  "verify ev rq algo auth headers g =
     (if lower algo \<notin> {''hmac-sha256''}
      then reject g (''Unknown authentication method: '' @ algo)
      else
        (case map_of auth ''credential'' of
           None \<Rightarrow> reject g (''Missing parameter: '' @ ''credential'')
         | Some credential \<Rightarrow>
             (case map_of auth ''signedheaders'' of
                None \<Rightarrow> reject g (''Missing parameter: '' @ ''signedheaders'')
              | Some sh \<Rightarrow>
                  (let signed_headers = signed_headers_of sh
                   in case map_of auth ''signature'' of
                        None \<Rightarrow> reject g (''Missing parameter: '' @ ''signature'')
                      | Some signature \<Rightarrow>
                          (let required = required_headers headers
                           in if set signed_headers \<subset> required
                              then reject g (''Some required headers were not signed: ''
                                             @ join_set (required - set signed_headers))
                              else check_request ev rq credential signed_headers
                                     signature headers g)))))"

subsection \<open>\<^verbatim>\<open>authenticate\<close>\<close>

text \<open>
  Lines 166 to 179 of the wrapper: the header dictionary with lower-case, stripped names
  and stripped values, the initial context, and the call of \<^verbatim>\<open>verify\<close> for a scheme
  that starts with \<^verbatim>\<open>woodbox-\<close>. The result is the exception that escaped, if any, and
  the context that the wrapped handler finds.
\<close>

definition header_dict :: "(string \<times> string) list \<Rightarrow> dict" where
  "header_dict hs = foldl (\<lambda>d (h, v). AList.update (strip (lower h)) (strip v) d) [] hs"

definition authenticate :: "env \<Rightarrow> request \<Rightarrow> exception option \<times> g_ctx" where
  "authenticate ev rq =
     (let headers = header_dict (req_headers rq);
          g = \<lparr>user = None, user_reason = ''No valid authorization header.''\<rparr>
      in case map_of headers ''authorization'' of
           None \<Rightarrow> (None, g)
         | Some a \<Rightarrow>
             (case parse_authorization_header a of
                (method, auth) \<Rightarrow>
                  if lower (take 8 method) = ''woodbox-''
                  then (case verify ev rq (lower (drop 8 method)) auth headers g of
                          (Inl e, g') \<Rightarrow> (Some e, g')
                        | (Inr b, g') \<Rightarrow> (None, g'))
                  else (None, g)))"

subsection \<open>The specification's wording, for comparison\<close>

text \<open>
  The unreserved-character rule as the specification words it: the letters, the digits
  and \<^verbatim>\<open>-_.~\<close> stay, every other character is escaped.
\<close>

definition spec_unreserved :: "char \<Rightarrow> bool" where
  "spec_unreserved c \<longleftrightarrow>
     c \<in> set ''ABCDEFGHIJKLMNOPQRSTUVWXYZabcdefghijklmnopqrstuvwxyz0123456789-_.~''"

definition spec_percent_encode :: "string \<Rightarrow> string" where
  "spec_percent_encode s = concat (map (\<lambda>c. if spec_unreserved c then [c] else percent c) s)"

subsection \<open>A concrete environment for the examples\<close>

text \<open>
  Modelled from the spec: \<^verbatim>\<open>strptime_iso8601\<close> of \<^verbatim>\<open>utils/time.py\<close>, which the
  module imports and which is not among the sources. The specification says that it
  accepts a basic-format UTC timestamp \<^verbatim>\<open>YYYYMMDDTHHMMSSZ\<close>; anything else is
  unparsable and, \<^verbatim>\<open>verify\<close> having no handler around the call, an exception there.
  The result is in microseconds since 1970-01-01T00:00:00Z.
\<close>

definition number_of :: "string \<Rightarrow> nat option" where
  "number_of s =
     (if s \<noteq> [] \<and> list_all (\<lambda>c. c \<in> set ''0123456789'') s
      then Some (foldl (\<lambda>n c. 10 * n + (of_char c - 48)) 0 s) else None)"

definition days_from_civil :: "int \<Rightarrow> int \<Rightarrow> int \<Rightarrow> int" where
  "days_from_civil y m d =
     (let y' = (if m \<le> 2 then y - 1 else y);
          era = y' div 400;
          yoe = y' - era * 400;
          doy = (153 * (if m > 2 then m - 3 else m + 9) + 2) div 5 + d - 1;
          doe = yoe * 365 + yoe div 4 - yoe div 100 + doy
      in era * 146097 + doe - 719468)"

definition days_in_month :: "nat \<Rightarrow> nat \<Rightarrow> nat" where
  "days_in_month y m =
     (if m = 2 then (if y mod 4 = 0 \<and> (y mod 100 \<noteq> 0 \<or> y mod 400 = 0) then 29 else 28)
      else if m \<in> {4, 6, 9, 11} then 30 else 31)"

definition seconds_from_civil :: "nat \<Rightarrow> nat \<Rightarrow> nat \<Rightarrow> nat \<Rightarrow> nat \<Rightarrow> nat \<Rightarrow> int" where
  "seconds_from_civil y m d hh mm ss =
     ((days_from_civil (int y) (int m) (int d) * 24 + int hh) * 60 + int mm) * 60 + int ss"

definition parse_iso8601_basic :: "string \<Rightarrow> exception + int" where
  "parse_iso8601_basic s =
     (if length s = 16 \<and> s ! 8 = CHR ''T'' \<and> s ! 15 = CHR ''Z'' then
        (case (number_of (take 4 s), number_of (take 2 (drop 4 s)), number_of (take 2 (drop 6 s)),
               number_of (take 2 (drop 9 s)), number_of (take 2 (drop 11 s)),
               number_of (take 2 (drop 13 s))) of
           (Some y, Some m, Some d, Some hh, Some mm, Some ss) \<Rightarrow>
             (if 1 \<le> y \<and> 1 \<le> m \<and> m \<le> 12 \<and> 1 \<le> d \<and> d \<le> days_in_month y m
                 \<and> hh < 24 \<and> mm < 60 \<and> ss < 60
              then Inr (seconds_from_civil y m d hh mm ss * 1000000)
              else Inl (ValueError s))
         | _ \<Rightarrow> Inl (ValueError s))
      else Inl (ValueError s))"

text \<open>
  The examples need some digest to run on. \<open>example_digest\<close> stands in for SHA-256 and,
  keyed by prefixing, for HMAC: four bytes, each the exclusive or of every fourth
  character of the message, written as eight hexadecimal digits. No theorem below depends
  on it except the examples that name \<open>example_env\<close>. The clock of the examples reads
  2016-01-22T21:12:03Z.
\<close>

fun xor_char :: "char \<Rightarrow> char \<Rightarrow> char" where
  "xor_char (Char a0 a1 a2 a3 a4 a5 a6 a7) (Char b0 b1 b2 b3 b4 b5 b6 b7) =
     Char (a0 \<noteq> b0) (a1 \<noteq> b1) (a2 \<noteq> b2) (a3 \<noteq> b3) (a4 \<noteq> b4) (a5 \<noteq> b5) (a6 \<noteq> b6) (a7 \<noteq> b7)"

fun hex_of_bits :: "bool \<Rightarrow> bool \<Rightarrow> bool \<Rightarrow> bool \<Rightarrow> char" where
  "hex_of_bits False False False False = CHR ''0''"
| "hex_of_bits True False False False = CHR ''1''"
| "hex_of_bits False True False False = CHR ''2''"
| "hex_of_bits True True False False = CHR ''3''"
| "hex_of_bits False False True False = CHR ''4''"
| "hex_of_bits True False True False = CHR ''5''"
| "hex_of_bits False True True False = CHR ''6''"
| "hex_of_bits True True True False = CHR ''7''"
| "hex_of_bits False False False True = CHR ''8''"
| "hex_of_bits True False False True = CHR ''9''"
| "hex_of_bits False True False True = CHR ''a''"
| "hex_of_bits True True False True = CHR ''b''"
| "hex_of_bits False False True True = CHR ''c''"
| "hex_of_bits True False True True = CHR ''d''"
| "hex_of_bits False True True True = CHR ''e''"
| "hex_of_bits True True True True = CHR ''f''"

fun hex_of_char :: "char \<Rightarrow> string" where
  "hex_of_char (Char b0 b1 b2 b3 b4 b5 b6 b7) = [hex_of_bits b4 b5 b6 b7, hex_of_bits b0 b1 b2 b3]"

fun digest_loop :: "string \<Rightarrow> char \<times> char \<times> char \<times> char \<Rightarrow> char \<times> char \<times> char \<times> char" where
  "digest_loop [] st = st"
| "digest_loop (x # xs) (a, b, c, d) = digest_loop xs (b, c, d, xor_char a x)"

definition example_digest :: "string \<Rightarrow> string" where
  "example_digest s =
     (case digest_loop s (CHR 0x00, CHR 0x00, CHR 0x00, CHR 0x00) of
        (a, b, c, d) \<Rightarrow> hex_of_char a @ hex_of_char b @ hex_of_char c @ hex_of_char d)"

definition example_env :: env where
  "example_env =
     \<lparr>strptime_iso8601 = parse_iso8601_basic,
      utcnow = 1453497123000000,
      sha256_hexdigest = example_digest,
      hmac_hexdigest = (\<lambda>key msg. example_digest (key @ msg)),
      session_first = map_of [(''2a241ea1'', \<lparr>secret = ''s3cret'', user_id = Some 7\<rparr>)]\<rparr>"

definition g0 :: g_ctx where
  "g0 = \<lparr>user = None, user_reason = ''No valid authorization header.''\<rparr>"

text \<open>A request for \<^verbatim>\<open>/notes?page=2\<close> with an empty body, the given method,
  Authorization and timestamp headers, and further headers \<open>extra\<close>.\<close>

definition example_request ::
  "string \<Rightarrow> string \<Rightarrow> string \<Rightarrow> (string \<times> string) list \<Rightarrow> request" where
  "example_request m auth ts extra =
     \<lparr>environ_method = m, req_path = ''/notes'', req_args = [(''page'', ''2'')],
      req_data = [],
      req_headers =
        [(''Host'', ''example.org''),
         (''Authorization'', auth),
         (''X-Woodbox-Content-Sha256'', ''00000000''),
         (''X-Woodbox-Timestamp'', ts)] @ extra\<rparr>"

text \<open>The parsed Authorization parameters and the header dictionary of such a request.\<close>

definition example_auth :: "string \<Rightarrow> string \<Rightarrow> dict" where
  "example_auth signed sg =
     [(''credential'', ''2a241ea1''), (''signedheaders'', signed), (''signature'', sg)]"

definition example_headers :: "string \<Rightarrow> dict" where
  "example_headers ts =
     [(''host'', ''example.org''), (''x-woodbox-content-sha256'', ''00000000''),
      (''x-woodbox-timestamp'', ts)]"

definition all_signed :: string where
  "all_signed = ''host;x-woodbox-content-sha256;x-woodbox-timestamp''"

section \<open>Properties\<close>

subsection \<open>The comparison of digests\<close>

lemma compare_loop_eq:
  "compare_loop a b ixs r \<longleftrightarrow> r \<and> (\<forall>i \<in> set ixs. a ! i = b ! i)"
  by (induction ixs arbitrary: r) auto

text \<open>The fallback decides equality of its arguments.\<close>

lemma compare_digest_iff: "compare_digest a b \<longleftrightarrow> a = b"
proof -
  have "compare_digest a b \<longleftrightarrow> length a = length b \<and> (\<forall>i < length a. a ! i = b ! i)"
    by (auto simp: compare_digest_def Let_def compare_loop_eq)
  also have "\<dots> \<longleftrightarrow> a = b"
    by (rule list_eq_iff_nth_eq [symmetric])
  finally show ?thesis .
qed

text \<open>The traced loop computes the same result as the plain one.\<close>

lemma compare_loop_trace_fst:
  "fst (compare_loop_trace a b ixs (r, tr)) = compare_loop a b ixs r"
  by (induction ixs arbitrary: r tr) auto

lemma compare_digest_trace_fst: "fst (compare_digest_trace a b) = compare_digest a b"
  using compare_loop_trace_fst [of a b "[0..<min (length a) (length b)]" True "[]"]
  by (auto simp: compare_digest_trace_def compare_digest_def Let_def split: prod.splits)

text \<open>
  Claim C3. The fallback \<^verbatim>\<open>compare_digest\<close> is meant to compare in constant time, without
  stopping at the first differing character. Its loop does visit every index, but
  \<^verbatim>\<open>result and (a[i] == b[i])\<close> stops comparing characters once \<open>result\<close> is false:
  against the digest \<^verbatim>\<open>8f3a\<close>, a signature that differs in the first character has one
  character compared, one that differs in the last character has four, as has the equal
  one. How many comparisons are made tells where the first difference is.
\<close>

theorem compare_digest_stops_comparing:
  "compare_digest_trace ''0f3a'' ''8f3a'' = (False, [0])
   \<and> compare_digest_trace ''8f3b'' ''8f3a'' = (False, [0, 1, 2, 3])
   \<and> compare_digest_trace ''8f3a'' ''8f3a'' = (True, [0, 1, 2, 3])"
  by code_simp

subsection \<open>The signed-header list\<close>

lemma is_upper_code_points:
  "is_upper c \<longleftrightarrow>
     (65 \<le> (of_char c :: nat) \<and> (of_char c :: nat) \<le> 90)
     \<or> (192 \<le> (of_char c :: nat) \<and> (of_char c :: nat) \<le> 222 \<and> (of_char c :: nat) \<noteq> 215)"
proof -
  have "c \<noteq> CHR 0xD7 \<longleftrightarrow> (of_char c :: nat) \<noteq> of_char (CHR 0xD7)"
    by (simp only: of_char_eq_iff)
  then show ?thesis by (simp add: is_upper_def less_eq_char_def)
qed

lemma not_upper_lower_char: "\<not> is_upper (lower_char c)"
proof (cases "is_upper c")
  case True
  then have "(of_char c :: nat) + 32 < 256" by (auto simp: is_upper_code_points)
  then have "(of_char (lower_char c) :: nat) = of_char c + 32"
    using True by (simp add: lower_char_def)
  with True show ?thesis by (auto simp: is_upper_code_points)
next
  case False
  then show ?thesis by (simp add: lower_char_def)
qed

lemma lower_char_idem: "lower_char (lower_char c) = lower_char c"
  using not_upper_lower_char [of c] by (simp add: lower_char_def)

lemma lower_idem: "lower (lower s) = lower s"
  by (simp add: lower_def lower_char_idem)

lemma split_on_ne: "split_on c s \<noteq> []"
  by (induction s) (auto simp: Let_def)

lemma split_on_chars: "w \<in> set (split_on c s) \<Longrightarrow> set w \<subseteq> set s"
proof (induction s arbitrary: w)
  case Nil then show ?case by simp
next
  case (Cons x xs)
  show ?case
  proof (cases "x = c")
    case True with Cons show ?thesis by auto
  next
    case False
    obtain r rs where r: "split_on c xs = r # rs"
      using split_on_ne [of c xs] by (cases "split_on c xs") auto
    with False Cons.prems have "w = x # r \<or> w \<in> set rs" by (simp add: Let_def)
    then show ?thesis using Cons.IH [of r] Cons.IH [of w] r by auto
  qed
qed

lemma header_lines_map:
  "header_lines hs headers = Inr ls \<Longrightarrow> ls = map (\<lambda>h. h @ '':'' @ the (map_of headers h)) hs"
  by (induction hs arbitrary: ls) (auto split: option.splits sum.splits)

lemma header_lines_ok:
  "set hs \<subseteq> set (map fst headers) \<Longrightarrow> \<exists>ls. header_lines hs headers = Inr ls"
proof (induction hs)
  case Nil then show ?case by simp
next
  case (Cons h hs)
  then obtain v where "map_of headers h = Some v"
    by (cases "map_of headers h") (auto simp: map_of_eq_None_iff)
  with Cons show ?case by auto
qed

text \<open>
  Claim C8, as the code has it. The signed-header list is the \<^verbatim>\<open>SignedHeaders\<close> value
  lower-cased, split at the semicolons and sorted: it is in increasing order, no name in it
  has an upper-case letter, and it keeps every occurrence of a name that the client
  listed (nothing is removed). The canonical header block has one line for each entry
  of the list.
\<close>

theorem signed_headers_sorted_lower:
  "sorted (signed_headers_of v)
   \<and> (\<forall>h \<in> set (signed_headers_of v). \<forall>c \<in> set h. \<not> is_upper c)
   \<and> mset (signed_headers_of v) = mset (split_on CHR '';'' (lower v))
   \<and> (\<forall>ls. header_lines (signed_headers_of v) headers = Inr ls \<longrightarrow>
         ls = map (\<lambda>h. h @ '':'' @ the (map_of headers h)) (signed_headers_of v))"
proof -
  have "\<not> is_upper c" if "h \<in> set (signed_headers_of v)" "c \<in> set h" for h c
  proof -
    from that(1) have "h \<in> set (split_on CHR '';'' (lower v))"
      by (simp add: signed_headers_of_def)
    from split_on_chars [OF this] that(2) have "c \<in> set (lower v)" by auto
    then show ?thesis by (auto simp: lower_def not_upper_lower_char)
  qed
  then show ?thesis
    by (auto simp: signed_headers_of_def dest: header_lines_map)
qed

text \<open>A name listed twice stays twice in the list and gets two lines of the header block.\<close>

theorem signed_headers_keep_duplicates:
  "signed_headers_of ''Host;x-woodbox-timestamp;host''
     = [''host'', ''host'', ''x-woodbox-timestamp'']
   \<and> \<not> distinct (signed_headers_of ''Host;x-woodbox-timestamp;host'')
   \<and> header_lines (signed_headers_of ''Host;x-woodbox-timestamp;host'')
        [(''host'', ''example.org''), (''x-woodbox-timestamp'', ''20160122T211203Z'')]
      = Inr [''host:example.org'', ''host:example.org'',
             ''x-woodbox-timestamp:20160122T211203Z'']"
  by code_simp

theorem signed_headers_sorted_lower_witness:
  "''host'' \<in> set (signed_headers_of ''X-Woodbox-Timestamp;Host'')
   \<and> CHR ''h'' \<in> set ''host'' \<and> \<not> is_upper CHR ''h''
   \<and> sorted (signed_headers_of ''X-Woodbox-Timestamp;Host'')
   \<and> mset (signed_headers_of ''X-Woodbox-Timestamp;Host'')
      = mset (split_on CHR '';'' (lower ''X-Woodbox-Timestamp;Host''))
   \<and> header_lines (signed_headers_of ''X-Woodbox-Timestamp;Host'')
        [(''host'', ''example.org''), (''x-woodbox-timestamp'', ''20160122T211203Z'')]
      = Inr [''host:example.org'', ''x-woodbox-timestamp:20160122T211203Z'']"
proof -
  let ?v = "''X-Woodbox-Timestamp;Host''"
  let ?hs = "[(''host'', ''example.org''), (''x-woodbox-timestamp'', ''20160122T211203Z'')]"
  have a: "''host'' \<in> set (signed_headers_of ?v)" by code_simp
  have b: "CHR ''h'' \<in> set ''host''" by simp
  have c: "header_lines (signed_headers_of ?v) ?hs
             = Inr [''host:example.org'', ''x-woodbox-timestamp:20160122T211203Z'']"
    by code_simp
  note t = signed_headers_sorted_lower [of ?v ?hs]
  from t a b have "\<not> is_upper CHR ''h''" by blast
  moreover from t have "sorted (signed_headers_of ?v)" by blast
  moreover from t have "mset (signed_headers_of ?v) = mset (split_on CHR '';'' (lower ?v))"
    by blast
  ultimately show ?thesis using a b c by simp
qed

subsection \<open>The canonical path\<close>

text \<open>
  What \<^verbatim>\<open>strip\<close> returns: if a string is \<open>pre @ mid @ post\<close> with \<open>pre\<close> and \<open>post\<close>
  white space and \<open>mid\<close> empty or with no white space at either end, the result is
  \<open>mid\<close>.
\<close>

lemma strip_with_decomp:
  assumes "\<forall>c \<in> set pre. sp c" and "\<forall>c \<in> set post. sp c"
    and "mid = [] \<or> (\<not> sp (hd mid) \<and> \<not> sp (last mid))"
  shows "strip_with sp (pre @ mid @ post) = mid"
proof (cases "mid = []")
  case True
  with assms(1,2) have "\<forall>c \<in> set (pre @ mid @ post). sp c" by auto
  then have d: "dropWhile sp (pre @ mid @ post) = []"
    by (simp only: dropWhile_eq_Nil_conv)
  show ?thesis unfolding strip_with_def d using True by simp
next
  case False
  with assms(3) have h: "\<not> sp (hd mid)" and l: "\<not> sp (last mid)" by auto
  from False h have "dropWhile sp (mid @ post) = mid @ post" by (cases mid) auto
  with assms(1) have a: "dropWhile sp (pre @ mid @ post) = mid @ post"
    by (simp add: dropWhile_append)
  from False obtain ys y where m: "mid = ys @ [y]" by (cases mid rule: rev_cases) auto
  with l have "dropWhile sp (rev mid) = rev mid" by simp
  with assms(2) have "dropWhile sp (rev post @ rev mid) = rev mid"
    by (simp add: dropWhile_append)
  with a show ?thesis by (simp add: strip_with_def)
qed


text \<open>A join followed by one more separator is every element followed by the separator.\<close>

lemma join_append_sep:
  "xs \<noteq> [] \<Longrightarrow> join sep xs @ sep = concat (map (\<lambda>x. x @ sep) xs)"
  by (induction sep xs rule: join.induct) auto


lemma always_safe_ascii: "list_all is_ascii (always_safe @ ''/'')"
  by code_simp

lemma safe_is_ascii:
  assumes "c \<in> set always_safe \<or> c \<in> set ''/''"
  shows "is_ascii c"
proof -
  from always_safe_ascii have "\<forall>c \<in> set (always_safe @ ''/''). is_ascii c"
    by (simp only: list_all_iff)
  with assms show ?thesis by auto
qed

text \<open>\<^verbatim>\<open>quote\<close> raises on the first character that is neither safe nor ASCII, and
  encodes every character otherwise.\<close>

lemma collect_quoter:
  "collect (map (quoter safe) s) =
     (case filter (\<lambda>c. \<not> (c \<in> set always_safe \<or> c \<in> set safe) \<and> \<not> is_ascii c) s of
        [] \<Rightarrow> Inr (map (\<lambda>c. if c \<in> set always_safe \<or> c \<in> set safe then [c] else percent c) s)
      | c # _ \<Rightarrow> Inl (KeyError [c]))"
  by (induction s) (auto simp: quoter_def split: list.splits)

lemma quote_cases:
  "quote s safe =
     (case filter (\<lambda>c. \<not> (c \<in> set always_safe \<or> c \<in> set safe) \<and> \<not> is_ascii c) s of
        [] \<Rightarrow> Inr (concat (map (\<lambda>c. if c \<in> set always_safe \<or> c \<in> set safe then [c]
                                   else percent c) s))
      | c # _ \<Rightarrow> Inl (KeyError [c]))"
  by (simp add: quote_def collect_quoter split: list.splits)


lemma percent_digits:
  "percent c = [CHR ''%'', ''0123456789ABCDEF'' ! (of_char c div 16),
                ''0123456789ABCDEF'' ! (of_char c mod 16)]"
proof -
  have "(of_char c :: nat) < 256" by simp
  then have "(of_char c :: nat) div 16 < 16" by (simp add: less_mult_imp_div_less)
  then show ?thesis by (simp add: percent_def hex_digit_def)
qed

text \<open>
  Claim C6, as the code has it. Write the path as \<open>pre @ mid @ post\<close>, where \<open>pre\<close> and
  \<open>post\<close> are the white space around it (the characters 0x09 to 0x0D, 0x1C to 0x20,
  0x85 and 0xA0) and \<open>mid\<close> has none at either end. If \<open>mid\<close> has a character that is not
  ASCII, \<^verbatim>\<open>urllib.quote\<close> raises \<^verbatim>\<open>KeyError\<close> on the first one. Otherwise the canonical
  path is \<open>mid\<close> with the letters, the digits and \<^verbatim>\<open>- _ . /\<close> as they are, and every other
  character (the tilde among them) as a percent sign and its two upper-case hexadecimal
  digits.
\<close>

theorem canonical_uri_encoding:
  assumes "ws = [CHR 0x09, CHR 0x0A, CHR 0x0B, CHR 0x0C, CHR 0x0D,
                 CHR 0x1C, CHR 0x1D, CHR 0x1E, CHR 0x1F, CHR 0x20, CHR 0x85, CHR 0xA0]"
    and "path = pre @ mid @ post"
    and "set pre \<subseteq> set ws" and "set post \<subseteq> set ws"
    and "mid = [] \<or> (hd mid \<notin> set ws \<and> last mid \<notin> set ws)"
  shows "canonical_uri path =
     (case filter (\<lambda>c. CHR 0x80 \<le> c) mid of
        [] \<Rightarrow>
          Inr (concat (map
            (\<lambda>c. if c \<in> set ''ABCDEFGHIJKLMNOPQRSTUVWXYZabcdefghijklmnopqrstuvwxyz0123456789''
                      \<or> c \<in> set ''-_./''
                   then [c]
                   else [CHR ''%'', ''0123456789ABCDEF'' ! (of_char c div 16),
                         ''0123456789ABCDEF'' ! (of_char c mod 16)])
            mid))
      | c # _ \<Rightarrow> Inl (KeyError [c]))"
proof -
  have sp: "is_space c \<longleftrightarrow> c \<in> set ws" for c
    unfolding is_space_def assms(1) ..
  have "strip_with is_space (pre @ mid @ post) = mid"
    using assms(3-5) by (intro strip_with_decomp) (auto simp: sp)
  then have s: "strip path = mid" by (simp add: strip_def assms(2))
  have f: "(\<lambda>c. \<not> (c \<in> set always_safe \<or> c \<in> set ''/'') \<and> \<not> is_ascii c)
             = (\<lambda>c. CHR 0x80 \<le> c)"
  proof
    fix c
    show "(\<not> (c \<in> set always_safe \<or> c \<in> set ''/'') \<and> \<not> is_ascii c) = (CHR 0x80 \<le> c)"
      using safe_is_ascii [of c] by (auto simp: is_ascii_def not_less)
  qed
  have g: "(\<lambda>c. if c \<in> set always_safe \<or> c \<in> set ''/'' then [c] else percent c)
             = (\<lambda>c. if c \<in> set ''ABCDEFGHIJKLMNOPQRSTUVWXYZabcdefghijklmnopqrstuvwxyz0123456789''
                        \<or> c \<in> set ''-_./''
                     then [c]
                     else [CHR ''%'', ''0123456789ABCDEF'' ! (of_char c div 16),
                           ''0123456789ABCDEF'' ! (of_char c mod 16)])"
  proof
    fix c
    have "c \<in> set always_safe \<or> c \<in> set ''/''
      \<longleftrightarrow> c \<in> set ''ABCDEFGHIJKLMNOPQRSTUVWXYZabcdefghijklmnopqrstuvwxyz0123456789''
           \<or> c \<in> set ''-_./''"
      unfolding always_safe_def by auto
    then show "(if c \<in> set always_safe \<or> c \<in> set ''/'' then [c] else percent c)
             = (if c \<in> set ''ABCDEFGHIJKLMNOPQRSTUVWXYZabcdefghijklmnopqrstuvwxyz0123456789''
                        \<or> c \<in> set ''-_./''
                     then [c]
                     else [CHR ''%'', ''0123456789ABCDEF'' ! (of_char c div 16),
                           ''0123456789ABCDEF'' ! (of_char c mod 16)])"
      by (simp only: percent_digits)
  qed
  show ?thesis
    unfolding canonical_uri_def s quote_cases f g ..
qed

text \<open>
  Against the unreserved-character rule of the specification: the slash is kept, the tilde
  is escaped, white space at the end of the path is dropped and not escaped, and a
  character that is not ASCII ends the request with an exception.
\<close>

theorem canonical_uri_not_unreserved_rule:
  "canonical_uri ''/~a '' = Inr ''/%7Ea'' \<and> spec_percent_encode ''/~a '' = ''%2F~a%20''
   \<and> canonical_uri ''/a'' = Inr ''/a'' \<and> spec_percent_encode ''/a'' = ''%2Fa''
   \<and> canonical_uri ''/~'' = Inr ''/%7E'' \<and> spec_percent_encode ''/~'' = ''%2F~''
   \<and> canonical_uri ''/a '' = Inr ''/a'' \<and> spec_percent_encode ''/a '' = ''%2Fa%20''
   \<and> canonical_uri [CHR ''/'', CHR 0xE9] = Inl (KeyError [CHR 0xE9])"
  by code_simp

theorem canonical_uri_encoding_witness:
  "''/notes/~a b '' = [] @ ''/notes/~a b'' @ '' ''
   \<and> set [] \<subseteq> set [CHR 0x09, CHR 0x0A, CHR 0x0B, CHR 0x0C, CHR 0x0D,
                     CHR 0x1C, CHR 0x1D, CHR 0x1E, CHR 0x1F, CHR 0x20, CHR 0x85, CHR 0xA0]
   \<and> set '' '' \<subseteq> set [CHR 0x09, CHR 0x0A, CHR 0x0B, CHR 0x0C, CHR 0x0D,
                       CHR 0x1C, CHR 0x1D, CHR 0x1E, CHR 0x1F, CHR 0x20, CHR 0x85, CHR 0xA0]
   \<and> canonical_uri ''/notes/~a b '' = Inr ''/notes/%7Ea%20b''"
proof -
  let ?ws = "[CHR 0x09, CHR 0x0A, CHR 0x0B, CHR 0x0C, CHR 0x0D,
              CHR 0x1C, CHR 0x1D, CHR 0x1E, CHR 0x1F, CHR 0x20, CHR 0x85, CHR 0xA0]"
  let ?mid = "''/notes/~a b''"
  have p: "''/notes/~a b '' = [] @ ?mid @ '' ''" by simp
  have a: "set [] \<subseteq> set ?ws" by simp
  have b: "set '' '' \<subseteq> set ?ws" by simp
  have c: "?mid = [] \<or> (hd ?mid \<notin> set ?ws \<and> last ?mid \<notin> set ?ws)" by simp
  have f: "filter (\<lambda>c. CHR 0x80 \<le> c) ?mid = []" by code_simp
  have e: "concat (map
            (\<lambda>c. if c \<in> set ''ABCDEFGHIJKLMNOPQRSTUVWXYZabcdefghijklmnopqrstuvwxyz0123456789''
                      \<or> c \<in> set ''-_./''
                   then [c]
                   else [CHR ''%'', ''0123456789ABCDEF'' ! (of_char c div 16),
                         ''0123456789ABCDEF'' ! (of_char c mod 16)])
            ?mid) = ''/notes/%7Ea%20b''"
    by simp
  from canonical_uri_encoding [OF refl p a b c]
  have "canonical_uri ''/notes/~a b '' = Inr ''/notes/%7Ea%20b''"
    unfolding f e by simp
  with a b show ?thesis by simp
qed

subsection \<open>The canonical query string\<close>

lemma sort_mset_cong: "mset xs = mset ys \<Longrightarrow> sort xs = sort (ys :: string list)"
  by (rule properties_for_sort) simp_all

lemma iterkeys_cong:
  assumes "mset xs = mset ys"
  shows "sort (iterkeys xs) = sort (iterkeys ys)"
proof -
  from assms have "set xs = set ys" by (rule mset_eq_setD)
  then have "fst ` set xs = fst ` set ys" by (rule arg_cong)
  then have "set (map fst xs) = set (map fst ys)" by (simp only: set_map)
  then have "sorted_list_of_set (set (map fst xs)) = sorted_list_of_set (set (map fst ys))"
    by (rule arg_cong)
  then show ?thesis by (simp only: iterkeys_def sorted_list_of_set_sort_remdups)
qed

lemma getlist_cong:
  assumes "mset xs = mset ys"
  shows "sort (getlist xs k) = sort (getlist ys k)"
proof -
  have "mset (getlist xs k) = image_mset snd (filter_mset (\<lambda>p. fst p = k) (mset xs))"
    by (simp add: getlist_def)
  also have "\<dots> = image_mset snd (filter_mset (\<lambda>p. fst p = k) (mset ys))"
    by (simp only: assms)
  also have "\<dots> = mset (getlist ys k)"
    by (simp add: getlist_def)
  finally show ?thesis by (rule sort_mset_cong)
qed

lemma canonical_query_string_cong:
  assumes "mset xs = mset ys"
  shows "canonical_query_string xs = canonical_query_string ys"
proof -
  have k: "sort (iterkeys xs) = sort (iterkeys ys)" using assms by (rule iterkeys_cong)
  have v: "\<And>key. sort (getlist xs key) = sort (getlist ys key)"
    using assms by (rule getlist_cong)
  show ?thesis unfolding canonical_query_string_def k v ..
qed

text \<open>
  Claim C5. Two orderings \<open>xs\<close> and \<open>ys\<close> of the same multiset of query pairs give the
  same canonical query string, and a request gives the same canonical request with
  either.
\<close>

theorem canonical_query_order_independent:
  assumes "mset xs = mset ys"
  shows "canonical_query_string xs = canonical_query_string ys
     \<and> canonical_request (rq\<lparr>req_args := xs\<rparr>) signed_headers headers payload_hash
       = canonical_request (rq\<lparr>req_args := ys\<rparr>) signed_headers headers payload_hash"
proof -
  have "canonical_query_string xs = canonical_query_string ys"
    using assms by (rule canonical_query_string_cong)
  then show ?thesis
    by (simp add: canonical_request_def request_method_def Let_def split: sum.splits)
qed

theorem canonical_query_order_independent_witness:
  "mset [(''b'', ''2''), (''a'', ''1'')] = mset [(''a'', ''1''), (''b'', ''2'')]
   \<and> canonical_query_string [(''b'', ''2''), (''a'', ''1'')] = Inr ''a=1&b=2''
   \<and> canonical_query_string [(''a'', ''1''), (''b'', ''2'')] = Inr ''a=1&b=2''
   \<and> canonical_request (example_request ''GET'' [] [] []\<lparr>req_args := [(''b'', ''2''), (''a'', ''1'')]\<rparr>)
        [''host''] [(''host'', ''example.org'')] ''00000000''
     = canonical_request (example_request ''GET'' [] [] []\<lparr>req_args := [(''a'', ''1''), (''b'', ''2'')]\<rparr>)
        [''host''] [(''host'', ''example.org'')] ''00000000''"
proof -
  let ?xs = "[(''b'', ''2''), (''a'', ''1'')]"
  let ?ys = "[(''a'', ''1''), (''b'', ''2'')]"
  have m: "mset ?xs = mset ?ys" by (simp add: add.commute)
  have x: "canonical_query_string ?xs = Inr ''a=1&b=2''" by code_simp
  from canonical_query_order_independent
         [OF m, of "example_request ''GET'' [] [] []" "[''host'']"
             "[(''host'', ''example.org'')]" "''00000000''"]
  have "canonical_query_string ?xs = canonical_query_string ?ys
     \<and> canonical_request (example_request ''GET'' [] [] []\<lparr>req_args := ?xs\<rparr>)
          [''host''] [(''host'', ''example.org'')] ''00000000''
       = canonical_request (example_request ''GET'' [] [] []\<lparr>req_args := ?ys\<rparr>)
          [''host''] [(''host'', ''example.org'')] ''00000000''" .
  with m x show ?thesis by simp
qed

subsection \<open>The canonical request\<close>

lemma header_lines_present:
  "set hs \<subseteq> fst ` set headers \<Longrightarrow>
     header_lines hs headers = Inr (map (\<lambda>h. h @ '':'' @ the (map_of headers h)) hs)"
proof (induction hs)
  case Nil then show ?case by simp
next
  case (Cons h hs)
  then obtain v where "map_of headers h = Some v"
    by (cases "map_of headers h") (auto simp: map_of_eq_None_iff)
  with Cons show ?case by auto
qed

lemma upper_char_not_lower: "\<not> is_lower_str (upper_char c)"
proof (cases "is_lower_str c")
  case True
  then have "97 \<le> (of_char c :: nat) \<and> (of_char c :: nat) \<le> 122"
    by (simp add: is_lower_str_def less_eq_char_def)
  moreover have "((of_char c :: nat) - 32) mod 256 = of_char c - 32"
    using nat_of_char_less_256 [of c] by (intro mod_less) arith
  ultimately have "(of_char (upper_char c) :: nat) = of_char c - 32 \<and> 97 \<le> (of_char c :: nat)
               \<and> (of_char c :: nat) \<le> 122"
    using True by (simp add: upper_char_def)
  then show ?thesis by (auto simp: is_lower_str_def less_eq_char_def)
next
  case False
  then show ?thesis by (simp add: upper_char_def)
qed

text \<open>
  Claim C7. The canonical request is six components with a newline between each two, in
  this order.
  \<^item> The method in upper case: \<open>m\<close> is the method of the WSGI environment with the letters
    a to z moved to A to Z (which is what \<^verbatim>\<open>request.method\<close> holds) and the white space
    around it removed; it has no lower-case letter.
  \<^item> The canonical path \<open>uri\<close> and the canonical query string \<open>query\<close>.
  \<^item> The header block: for each signed name in turn, a line \<^verbatim>\<open>name:value\<close>, with a newline
    between two lines.
  \<^item> The signed names with a semicolon between two names.
  \<^item> The payload digest.

  This holds whenever the canonical request is built at all: the path and the query can
  be encoded, every signed name is a header of the request, and the method and the header
  block are ASCII.
\<close>

theorem canonical_request_components:
  assumes "ws = [CHR 0x09, CHR 0x0A, CHR 0x0B, CHR 0x0C, CHR 0x0D, CHR 0x20]"
    and "map (\<lambda>c. if CHR ''a'' \<le> c \<and> c \<le> CHR ''z'' then char_of (of_char c - (32::nat)) else c)
             (environ_method rq) = pre @ m @ post"
    and "set pre \<subseteq> set ws" and "set post \<subseteq> set ws"
    and "m = [] \<or> (hd m \<notin> set ws \<and> last m \<notin> set ws)"
    and "canonical_uri (req_path rq) = Inr uri"
    and "canonical_query_string (req_args rq) = Inr query"
    and "set signed_headers \<subseteq> fst ` set headers"
    and "block @ [CHR 0x0A]
           = concat (map (\<lambda>h. h @ '':'' @ the (map_of headers h) @ [CHR 0x0A]) signed_headers)"
    and "names @ '';'' = concat (map (\<lambda>h. h @ '';'') signed_headers)"
    and "\<forall>c \<in> set (m @ block). c < CHR 0x80"
  shows "canonical_request rq signed_headers headers payload_hash
           = Inr (m @ [CHR 0x0A] @ uri @ [CHR 0x0A] @ query @ [CHR 0x0A] @ block @ [CHR 0x0A]
                  @ names @ [CHR 0x0A] @ payload_hash)
         \<and> (\<forall>c \<in> set m. \<not> (CHR ''a'' \<le> c \<and> c \<le> CHR ''z''))"
proof -
  have sp: "is_space_str c \<longleftrightarrow> c \<in> set ws" for c
    unfolding is_space_str_def assms(1) ..
  have "upper_char = (\<lambda>c. if CHR ''a'' \<le> c \<and> c \<le> CHR ''z''
                            then char_of (of_char c - (32::nat)) else c)"
    by (rule ext) (simp add: upper_char_def is_lower_str_def)
  with assms(2) have u: "upper (environ_method rq) = pre @ m @ post"
    by (simp add: upper_def)
  have "strip_with is_space_str (pre @ m @ post) = m"
    using assms(3-5) by (intro strip_with_decomp) (auto simp: sp)
  then have m: "strip_str (request_method rq) = m"
    by (simp add: strip_str_def request_method_def u)
  from assms(9) have ne: "signed_headers \<noteq> []" by auto
  let ?ls = "map (\<lambda>h. h @ '':'' @ the (map_of headers h)) signed_headers"
  have hl: "header_lines signed_headers headers = Inr ?ls"
    using assms(8) by (rule header_lines_present)
  from ne have "join [CHR 0x0A] ?ls @ [CHR 0x0A] = concat (map (\<lambda>x. x @ [CHR 0x0A]) ?ls)"
    by (intro join_append_sep) simp
  also have "\<dots> = block @ [CHR 0x0A]"
    by (simp add: assms(9) comp_def)
  finally have b: "join [CHR 0x0A] ?ls = block" by simp
  from ne have "join '';'' signed_headers @ '';'' = names @ '';''"
    unfolding assms(10) by (rule join_append_sep)
  then have n: "join '';'' signed_headers = names" by simp
  from assms(11) have a: "list_all is_ascii m \<and> list_all is_ascii block"
    by (simp add: list_all_iff is_ascii_def)
  have "set m \<subseteq> set (upper (environ_method rq))" by (auto simp: u)
  then have "\<forall>c \<in> set m. \<not> is_lower_str c"
    using upper_char_not_lower by (auto simp: upper_def)
  then have l: "\<forall>c \<in> set m. \<not> (CHR ''a'' \<le> c \<and> c \<le> CHR ''z'')"
    by (simp add: is_lower_str_def)
  have "canonical_request rq signed_headers headers payload_hash
          = (if list_all is_ascii m \<and> list_all is_ascii (join [CHR 0x0A] ?ls)
             then Inr (join [CHR 0x0A]
                         [m, uri, query, join [CHR 0x0A] ?ls, join '';'' signed_headers,
                          payload_hash])
             else Inl UnicodeDecodeError)"
    by (simp add: canonical_request_def Let_def m assms(6,7) hl)
  then have "canonical_request rq signed_headers headers payload_hash
           = Inr (m @ [CHR 0x0A] @ uri @ [CHR 0x0A] @ query @ [CHR 0x0A] @ block @ [CHR 0x0A]
                  @ names @ [CHR 0x0A] @ payload_hash)"
    unfolding b n using a by simp
  with l show ?thesis by simp
qed

theorem canonical_request_components_witness:
  "signed_headers_of all_signed
     = [''host'', ''x-woodbox-content-sha256'', ''x-woodbox-timestamp'']
   \<and> canonical_uri (req_path (example_request ''get'' [] ''20160122T211203Z'' [])) = Inr ''/notes''
   \<and> canonical_query_string (req_args (example_request ''get'' [] ''20160122T211203Z'' []))
       = Inr ''page=2''
   \<and> canonical_request (example_request ''get'' [] ''20160122T211203Z'' [])
        [''host'', ''x-woodbox-content-sha256'', ''x-woodbox-timestamp'']
        (example_headers ''20160122T211203Z'') ''00000000''
     = Inr (''GET'' @ [CHR 0x0A] @ ''/notes'' @ [CHR 0x0A] @ ''page=2'' @ [CHR 0x0A]
            @ ''host:example.org'' @ [CHR 0x0A]
            @ ''x-woodbox-content-sha256:00000000'' @ [CHR 0x0A]
            @ ''x-woodbox-timestamp:20160122T211203Z'' @ [CHR 0x0A]
            @ ''host;x-woodbox-content-sha256;x-woodbox-timestamp'' @ [CHR 0x0A]
            @ ''00000000'')"
proof -
  let ?rq = "example_request ''get'' [] ''20160122T211203Z'' []"
  let ?sh = "[''host'', ''x-woodbox-content-sha256'', ''x-woodbox-timestamp'']"
  let ?hs = "example_headers ''20160122T211203Z''"
  let ?ws = "[CHR 0x09, CHR 0x0A, CHR 0x0B, CHR 0x0C, CHR 0x0D, CHR 0x20]"
  let ?block = "''host:example.org'' @ [CHR 0x0A]
            @ ''x-woodbox-content-sha256:00000000'' @ [CHR 0x0A]
            @ ''x-woodbox-timestamp:20160122T211203Z''"
  let ?names = "''host;x-woodbox-content-sha256;x-woodbox-timestamp''"
  have s: "signed_headers_of all_signed = ?sh" by code_simp
  have h2: "map (\<lambda>c. if CHR ''a'' \<le> c \<and> c \<le> CHR ''z''
                       then char_of (of_char c - (32::nat)) else c) (environ_method ?rq)
              = [] @ ''GET'' @ []"
    by code_simp
  have h3: "set [] \<subseteq> set ?ws" by simp
  have h5: "''GET'' = [] \<or> (hd ''GET'' \<notin> set ?ws \<and> last ''GET'' \<notin> set ?ws)" by simp
  have h6: "canonical_uri (req_path ?rq) = Inr ''/notes''" by code_simp
  have h7: "canonical_query_string (req_args ?rq) = Inr ''page=2''" by code_simp
  have h8: "set ?sh \<subseteq> fst ` set ?hs" by (simp add: example_headers_def)
  have h9: "?block @ [CHR 0x0A]
              = concat (map (\<lambda>h. h @ '':'' @ the (map_of ?hs h) @ [CHR 0x0A]) ?sh)"
    by (simp add: example_headers_def)
  have h10: "?names @ '';'' = concat (map (\<lambda>h. h @ '';'') ?sh)" by simp
  have h11: "\<forall>c \<in> set (''GET'' @ ?block). c < CHR 0x80" by code_simp
  from canonical_request_components [OF refl h2 h3 h3 h5 h6 h7 h8 h9 h10 h11, of "''00000000''"]
  have "canonical_request ?rq ?sh ?hs ''00000000''
     = Inr (''GET'' @ [CHR 0x0A] @ ''/notes'' @ [CHR 0x0A] @ ''page=2'' @ [CHR 0x0A]
            @ ?block @ [CHR 0x0A] @ ?names @ [CHR 0x0A] @ ''00000000'')"
    by blast
  with s h6 h7 show ?thesis by simp
qed

subsection \<open>The freshness gate\<close>

text \<open>Once the algorithm, the three parameters and the coverage gate are passed,
  \<^verbatim>\<open>verify\<close> is the rest of the gates.\<close>

lemma verify_gates_passed:
  assumes "lower algo = ''hmac-sha256''"
    and "map_of auth ''credential'' = Some cred"
    and "map_of auth ''signedheaders'' = Some sh"
    and "map_of auth ''signature'' = Some sg"
    and "\<not> set (signed_headers_of sh) \<subset> required_headers headers"
  shows "verify ev rq algo auth headers g
           = check_request ev rq cred (signed_headers_of sh) sg headers g"
  using assms by (simp add: verify_def Let_def)

text \<open>No later gate gives the reason of the freshness gate.\<close>

lemma check_signature_not_too_old:
  "check_signature ev rq shs headers ph sg sess g
     \<noteq> (Inr False, g\<lparr>user := None, user_reason := ''Request is too old.''\<rparr>)"
proof -
  obtain u r where g: "g = \<lparr>user = u, user_reason = r\<rparr>" by (cases g) simp
  show ?thesis
    by (simp add: check_signature_def reject_def raise_def Let_def g
             split: sum.splits option.splits)
qed

lemma check_request_too_old:
  assumes "set shs \<subseteq> set (map fst headers)"
    and "map_of headers ''x-woodbox-timestamp'' = Some ts"
    and "strptime_iso8601 ev ts = Inr t"
  shows "check_request ev rq cred shs sg headers g
           = (Inr False, g\<lparr>user := None, user_reason := ''Request is too old.''\<rparr>)
         \<longleftrightarrow> \<bar>utcnow ev - t\<bar> > 5 * 60 * 1000000"
proof -
  obtain u r where g: "g = \<lparr>user = u, user_reason = r\<rparr>" by (cases g) simp
  from assms(1) have e: "set shs - fst ` set headers = {}" by auto
  have a: "\<bar>utcnow ev - t\<bar> = \<bar>t - utcnow ev\<bar>" by simp
  show ?thesis
  proof (cases "\<bar>t - utcnow ev\<bar> > 5 * 60 * 1000000")
    case True
    then show ?thesis
      using assms(2,3) by (simp add: check_request_def Let_def e reject_def a)
  next
    case False
    then show ?thesis
      using assms(2,3) check_signature_not_too_old [of ev rq shs headers _ sg _ g]
      by (simp add: check_request_def Let_def e reject_def raise_def a g split: option.splits)
  qed
qed

text \<open>
  Claim C4. For a request that reaches the freshness gate (the algorithm is known, the
  three parameters are there, the coverage gate lets it pass, every signed header is a
  header of the request) with a timestamp that parses to the time \<open>t\<close>, \<^verbatim>\<open>verify\<close>
  rejects with the reason \<^verbatim>\<open>Request is too old.\<close> exactly when \<open>t\<close> is more than five
  minutes away from the clock, before or after; times are in microseconds.
\<close>

theorem freshness_gate:
  assumes "lower algo = ''hmac-sha256''"
    and "map_of auth ''credential'' = Some cred"
    and "map_of auth ''signedheaders'' = Some sh"
    and "map_of auth ''signature'' = Some sg"
    and "\<not> set (signed_headers_of sh) \<subset> required_headers headers"
    and "set (signed_headers_of sh) \<subseteq> set (map fst headers)"
    and "map_of headers ''x-woodbox-timestamp'' = Some ts"
    and "strptime_iso8601 ev ts = Inr t"
  shows "verify ev rq algo auth headers g
           = (Inr False, g\<lparr>user := None, user_reason := ''Request is too old.''\<rparr>)
         \<longleftrightarrow> \<bar>utcnow ev - t\<bar> > 5 * 60 * 1000000"
  unfolding verify_gates_passed [OF assms(1-5)]
  using assms(6-8) by (rule check_request_too_old)

subsection \<open>The result and the context\<close>

lemma check_signature_consistent:
  assumes "check_signature ev rq shs headers ph sg sess g = (Inr b, g')"
  shows "(\<not> b \<longrightarrow> user g' = None \<and> user_reason g' \<noteq> [])
       \<and> (b \<longrightarrow> user_reason g' = ''Authenticated'' \<and> user g' = user_id sess)"
  using assms
  by (auto simp: check_signature_def reject_def raise_def Let_def
           split: if_splits option.splits sum.splits)

lemma check_request_consistent:
  assumes "check_request ev rq cred shs sg headers g = (Inr b, g')"
  shows "(\<not> b \<longrightarrow> user g' = None \<and> user_reason g' \<noteq> [])
       \<and> (b \<longrightarrow> user_reason g' = ''Authenticated''
              \<and> (\<exists>sess. session_first ev cred = Some sess \<and> user g' = user_id sess))"
  using assms check_signature_consistent [of ev rq shs headers _ sg _ g b g']
  by (auto simp: check_request_def reject_def raise_def Let_def
           split: if_splits option.splits sum.splits)

text \<open>
  Claim C10. When \<^verbatim>\<open>verify\<close> returns \<open>False\<close>, the user of the context is \<open>None\<close> and
  the reason is not empty. When it returns \<open>True\<close>, the reason is \<^verbatim>\<open>Authenticated\<close> and
  the user is the \<^verbatim>\<open>user_id\<close> of the session found for the credential. So, if no
  session of the credential has the user \<open>None\<close>, the result is \<open>True\<close> exactly when the
  user of the context is not \<open>None\<close>.
\<close>

theorem verify_result_consistent:
  assumes "verify ev rq algo auth headers g = (Inr b, g')"
  shows "(\<not> b \<longrightarrow> user g' = None \<and> user_reason g' \<noteq> [])
       \<and> (b \<longrightarrow> user_reason g' = ''Authenticated''
              \<and> (\<exists>cred sess. map_of auth ''credential'' = Some cred
                     \<and> session_first ev cred = Some sess \<and> user g' = user_id sess))
       \<and> ((\<forall>cred sess. map_of auth ''credential'' = Some cred
              \<longrightarrow> session_first ev cred = Some sess \<longrightarrow> user_id sess \<noteq> None)
            \<longrightarrow> (b \<longleftrightarrow> user g' \<noteq> None))"
proof (cases "\<exists>cred shs sg. verify ev rq algo auth headers g
                 = check_request ev rq cred shs sg headers g
                 \<and> map_of auth ''credential'' = Some cred")
  case True
  then obtain cred shs sg where
    v: "verify ev rq algo auth headers g = check_request ev rq cred shs sg headers g"
    and c: "map_of auth ''credential'' = Some cred" by blast
  from check_request_consistent [OF assms [unfolded v]] c
  show ?thesis by auto
next
  case False
  then have r: "\<exists>why. why \<noteq> [] \<and> verify ev rq algo auth headers g = reject g why"
    by (auto simp: verify_def Let_def split: option.splits if_splits)
  with assms show ?thesis by (auto simp: reject_def)
qed

subsection \<open>The algorithm gate\<close>

text \<open>
  Claim C9, as the code has it. For a request with an Authorization header whose scheme is
  \<open>method\<close>: if the scheme starts with \<^verbatim>\<open>woodbox-\<close> (in any case) and the rest, in lower
  case, is not \<^verbatim>\<open>hmac-sha256\<close>, the reason is \<^verbatim>\<open>Unknown authentication method: \<close>
  followed by that rest in lower case; if the scheme does not start with \<^verbatim>\<open>woodbox-\<close>,
  \<^verbatim>\<open>verify\<close> is not called and the reason stays \<^verbatim>\<open>No valid authorization header.\<close>
\<close>

theorem unknown_method:
  assumes "map_of (header_dict (req_headers rq)) ''authorization'' = Some a"
    and "parse_authorization_header a = (method, auth)"
  shows "(lower (take 8 method) = ''woodbox-'' \<and> lower (drop 8 method) \<noteq> ''hmac-sha256''
            \<longrightarrow> authenticate ev rq
                  = (None, \<lparr>user = None,
                            user_reason = ''Unknown authentication method: ''
                                          @ lower (drop 8 method)\<rparr>))
       \<and> (lower (take 8 method) \<noteq> ''woodbox-''
            \<longrightarrow> authenticate ev rq
                  = (None, \<lparr>user = None, user_reason = ''No valid authorization header.''\<rparr>))"
  using assms
  by (simp add: authenticate_def Let_def verify_def reject_def lower_idem)

subsection \<open>Exceptions that leave \<^verbatim>\<open>verify\<close>\<close>











subsection \<open>The coverage gate\<close>

text \<open>
  Claim C1. The gate is to reject whenever a required header is not signed. Line 85 tests
  \<^verbatim>\<open>required_headers > set(signed_headers)\<close>, which holds only when the signed names are a
  proper subset of the required ones: as soon as the client also signs a header that is
  not required, the test is false and the gate lets the request through. Here
  \<^verbatim>\<open>x-woodbox-timestamp\<close> is required and not signed, \<^verbatim>\<open>accept\<close> is signed, and the
  request is authenticated; with \<^verbatim>\<open>accept\<close> left out of the signed names the gate
  rejects.
\<close>

theorem coverage_gate_lets_unsigned_timestamp_through:
  "''x-woodbox-timestamp''
     \<in> required_headers (example_headers ''20160122T211203Z'' @ [(''accept'', ''*/*'')])
   \<and> ''x-woodbox-timestamp'' \<notin> set (signed_headers_of ''accept;host;x-woodbox-content-sha256'')
   \<and> verify example_env
        (example_request ''GET'' [] ''20160122T211203Z'' [(''Accept'', ''*/*'')]) ''hmac-sha256''
        (example_auth ''accept;host;x-woodbox-content-sha256'' ''583d4911'')
        (example_headers ''20160122T211203Z'' @ [(''accept'', ''*/*'')]) g0
      = (Inr True, \<lparr>user = Some 7, user_reason = ''Authenticated''\<rparr>)
   \<and> verify example_env
        (example_request ''GET'' [] ''20160122T211203Z'' []) ''hmac-sha256''
        (example_auth ''host;x-woodbox-content-sha256'' ''583d4911'')
        (example_headers ''20160122T211203Z'') g0
      = (Inr False,
         \<lparr>user = None,
          user_reason = ''Some required headers were not signed: x-woodbox-timestamp''\<rparr>)"
  by code_simp



subsection \<open>Facts of the example request\<close>

lemma example_gates:
  "lower ''hmac-sha256'' = ''hmac-sha256''"
  "\<not> set (signed_headers_of all_signed) \<subset> required_headers (example_headers [])"
  "set (signed_headers_of all_signed) \<subseteq> set (map fst (example_headers []))"
  by code_simp+

lemma example_headers_keys:
  "map fst (example_headers ts) = map fst (example_headers [])"
  "required_headers (example_headers ts) = required_headers (example_headers [])"
  "map_of (example_headers ts) ''x-woodbox-timestamp'' = Some ts"
  by (simp_all add: example_headers_def required_headers_def)

lemma example_gates_any:
  "\<not> set (signed_headers_of all_signed) \<subset> required_headers (example_headers ts)"
  "set (signed_headers_of all_signed) \<subseteq> set (map fst (example_headers ts))"
proof -
  show "\<not> set (signed_headers_of all_signed) \<subset> required_headers (example_headers ts)"
    unfolding example_headers_keys(2) [of ts] by (rule example_gates(2))
  show "set (signed_headers_of all_signed) \<subseteq> set (map fst (example_headers ts))"
    unfolding example_headers_keys(1) [of ts] by (rule example_gates(3))
qed

lemma example_auth_params:
  "map_of (example_auth signed sg) ''credential'' = Some ''2a241ea1''"
  "map_of (example_auth signed sg) ''signedheaders'' = Some signed"
  "map_of (example_auth signed sg) ''signature'' = Some sg"
  by (simp_all add: example_auth_def)

theorem freshness_gate_witness:
  "utcnow example_env = 1453497123000000
   \<and> strptime_iso8601 example_env ''20160122T211704Z'' = Inr (1453497123000000 + 301 * 1000000)
   \<and> strptime_iso8601 example_env ''20160122T210702Z'' = Inr (1453497123000000 - 301 * 1000000)
   \<and> strptime_iso8601 example_env ''20160122T210704Z'' = Inr (1453497123000000 - 299 * 1000000)
   \<and> verify example_env (example_request ''GET'' [] ''20160122T211704Z'' []) ''hmac-sha256''
        (example_auth all_signed ''0'') (example_headers ''20160122T211704Z'') g0
      = (Inr False, g0\<lparr>user := None, user_reason := ''Request is too old.''\<rparr>)
   \<and> verify example_env (example_request ''GET'' [] ''20160122T210702Z'' []) ''hmac-sha256''
        (example_auth all_signed ''0'') (example_headers ''20160122T210702Z'') g0
      = (Inr False, g0\<lparr>user := None, user_reason := ''Request is too old.''\<rparr>)
   \<and> verify example_env (example_request ''GET'' [] ''20160122T210704Z'' []) ''hmac-sha256''
        (example_auth all_signed ''0'') (example_headers ''20160122T210704Z'') g0
      \<noteq> (Inr False, g0\<lparr>user := None, user_reason := ''Request is too old.''\<rparr>)"
proof -
  have n: "utcnow example_env = 1453497123000000" by (simp add: example_env_def)
  have a: "strptime_iso8601 example_env ''20160122T211704Z'' = Inr 1453497424000000"
    by code_simp
  have b: "strptime_iso8601 example_env ''20160122T210702Z'' = Inr 1453496822000000"
    by code_simp
  have c: "strptime_iso8601 example_env ''20160122T210704Z'' = Inr 1453496824000000"
    by code_simp
  note f = freshness_gate [OF example_gates(1) example_auth_params example_gates_any
                              example_headers_keys(3)]
  from f [OF a, of "example_request ''GET'' [] ''20160122T211704Z'' []" "''0''" g0]
  have 1: "verify example_env (example_request ''GET'' [] ''20160122T211704Z'' []) ''hmac-sha256''
        (example_auth all_signed ''0'') (example_headers ''20160122T211704Z'') g0
      = (Inr False, g0\<lparr>user := None, user_reason := ''Request is too old.''\<rparr>)"
    by (simp add: n)
  from f [OF b, of "example_request ''GET'' [] ''20160122T210702Z'' []" "''0''" g0]
  have 2: "verify example_env (example_request ''GET'' [] ''20160122T210702Z'' []) ''hmac-sha256''
        (example_auth all_signed ''0'') (example_headers ''20160122T210702Z'') g0
      = (Inr False, g0\<lparr>user := None, user_reason := ''Request is too old.''\<rparr>)"
    by (simp add: n)
  from f [OF c, of "example_request ''GET'' [] ''20160122T210704Z'' []" "''0''" g0]
  have 3: "verify example_env (example_request ''GET'' [] ''20160122T210704Z'' []) ''hmac-sha256''
        (example_auth all_signed ''0'') (example_headers ''20160122T210704Z'') g0
      \<noteq> (Inr False, g0\<lparr>user := None, user_reason := ''Request is too old.''\<rparr>)"
    by (simp add: n)
  from n a b c 1 2 3 show ?thesis by simp
qed

theorem verify_result_consistent_witness:
  "verify example_env (example_request ''GET'' [] ''20160122T211203Z'' []) ''hmac-sha256''
      (example_auth all_signed ''5a37491b'') (example_headers ''20160122T211203Z'') g0
     = (Inr True, \<lparr>user = Some 7, user_reason = ''Authenticated''\<rparr>)
   \<and> (\<exists>cred sess. map_of (example_auth all_signed ''5a37491b'') ''credential'' = Some cred
          \<and> session_first example_env cred = Some sess \<and> Some 7 = user_id sess)
   \<and> verify example_env (example_request ''GET'' [] ''20160122T211203Z'' []) ''hmac-sha256''
      (example_auth all_signed ''5a37491c'') (example_headers ''20160122T211203Z'') g0
     = (Inr False, \<lparr>user = None, user_reason = ''Signature do not match''\<rparr>)
   \<and> ''Signature do not match'' \<noteq> []"
proof -
  let ?rq = "example_request ''GET'' [] ''20160122T211203Z'' []"
  let ?hs = "example_headers ''20160122T211203Z''"
  have a: "verify example_env ?rq ''hmac-sha256'' (example_auth all_signed ''5a37491b'') ?hs g0
     = (Inr True, \<lparr>user = Some 7, user_reason = ''Authenticated''\<rparr>)"
    by code_simp
  have b: "verify example_env ?rq ''hmac-sha256'' (example_auth all_signed ''5a37491c'') ?hs g0
     = (Inr False, \<lparr>user = None, user_reason = ''Signature do not match''\<rparr>)"
    by code_simp
  from verify_result_consistent [OF a]
  have "\<exists>cred sess. map_of (example_auth all_signed ''5a37491b'') ''credential'' = Some cred
          \<and> session_first example_env cred = Some sess \<and> Some 7 = user_id sess"
    by simp
  moreover from verify_result_consistent [OF b]
  have "''Signature do not match'' \<noteq> []" by simp
  ultimately show ?thesis using a b by blast
qed

text \<open>
  Against claim C9: the scheme \<^verbatim>\<open>Basic\<close> is not the supported one, and the reason is
  not \<^verbatim>\<open>Unknown authentication method\<close>.
\<close>

theorem other_scheme_not_reported:
  "authenticate example_env
      (example_request ''GET'' ''Basic dXNlcjpwdw=='' ''20160122T211203Z'' [])
     = (None, \<lparr>user = None, user_reason = ''No valid authorization header.''\<rparr>)
   \<and> fst (parse_authorization_header ''Basic dXNlcjpwdw=='') = ''Basic''
   \<and> lower ''Basic'' \<noteq> ''woodbox-hmac-sha256''"
  by code_simp

theorem unknown_method_witness:
  "map_of (header_dict (req_headers
       (example_request ''GET'' ''Woodbox-HMAC-MD5 Credential=2a241ea1'' ''20160122T211203Z'' [])))
     ''authorization'' = Some ''Woodbox-HMAC-MD5 Credential=2a241ea1''
   \<and> parse_authorization_header ''Woodbox-HMAC-MD5 Credential=2a241ea1''
       = (''Woodbox-HMAC-MD5'', [(''credential'', ''2a241ea1'')])
   \<and> authenticate example_env
        (example_request ''GET'' ''Woodbox-HMAC-MD5 Credential=2a241ea1'' ''20160122T211203Z'' [])
      = (None, \<lparr>user = None, user_reason = ''Unknown authentication method: hmac-md5''\<rparr>)
   \<and> authenticate example_env
        (example_request ''GET'' ''Bearer abc'' ''20160122T211203Z'' [])
      = (None, \<lparr>user = None, user_reason = ''No valid authorization header.''\<rparr>)"
proof -
  let ?a = "''Woodbox-HMAC-MD5 Credential=2a241ea1''"
  let ?rq = "example_request ''GET'' ?a ''20160122T211203Z'' []"
  let ?rq' = "example_request ''GET'' ''Bearer abc'' ''20160122T211203Z'' []"
  have h1: "map_of (header_dict (req_headers ?rq)) ''authorization'' = Some ?a" by code_simp
  have h2: "parse_authorization_header ?a = (''Woodbox-HMAC-MD5'', [(''credential'', ''2a241ea1'')])"
    by code_simp
  have c: "lower (take 8 ''Woodbox-HMAC-MD5'') = ''woodbox-''
           \<and> lower (drop 8 ''Woodbox-HMAC-MD5'') = ''hmac-md5''"
    by code_simp
  have k1: "map_of (header_dict (req_headers ?rq')) ''authorization'' = Some ''Bearer abc''"
    by code_simp
  have k2: "parse_authorization_header ''Bearer abc'' = (''Bearer'', [(''abc'', [])])"
    by code_simp
  have d: "lower (take 8 ''Bearer'') \<noteq> ''woodbox-''" by code_simp
  from unknown_method [OF h1 h2, of example_env] c
  have 1: "authenticate example_env ?rq
      = (None, \<lparr>user = None, user_reason = ''Unknown authentication method: hmac-md5''\<rparr>)"
    by simp
  from unknown_method [OF k1 k2, of example_env] d
  have 2: "authenticate example_env ?rq'
      = (None, \<lparr>user = None, user_reason = ''No valid authorization header.''\<rparr>)"
    by simp
  from h1 h2 1 2 show ?thesis by simp
qed

end
